theory Spec2Isabelle
  imports Main "HOL-Library.Sublist"
begin

section \<open>The send_email_message management command\<close>

text \<open>
  A shallow embedding of \<^verbatim>\<open>django_send_email/management/commands/send_email_message.py\<close>.
  Python strings are \<^typ>\<open>string\<close> (a character is a code point below 256), lists are HOL
  lists, \<^verbatim>\<open>None\<close> is \<^term>\<open>None\<close>.
  The collaborators the command calls but does not define (the Django settings object, the
  file system, standard input, the terminal, \<^verbatim>\<open>validate_email\<close> and the mail backend) are
  fields of an environment record.
\<close>

subsection \<open>Settings and group lookup\<close>

text \<open>
  \<^verbatim>\<open>settings.ADMINS\<close> and \<^verbatim>\<open>settings.MANAGERS\<close> are sequences of (name, address) pairs;
  \<^verbatim>\<open>getattr(settings, l, ())\<close> yields the empty tuple when the attribute is missing, which is
  \<^term>\<open>None\<close> here.
\<close>

record settings =
  ADMINS :: "(string \<times> string) list option"
  MANAGERS :: "(string \<times> string) list option"
  EMAIL_SUBJECT_PREFIX :: string
  DEFAULT_FROM_EMAIL :: string

definition getattr_group :: "settings \<Rightarrow> string \<Rightarrow> (string \<times> string) list" where
  "getattr_group st l =
     (if l = ''ADMINS'' then (case ADMINS st of None \<Rightarrow> [] | Some ps \<Rightarrow> ps)
      else if l = ''MANAGERS'' then (case MANAGERS st of None \<Rightarrow> [] | Some ps \<Rightarrow> ps)
      else [])"

text \<open>\<^verbatim>\<open>get_addresses = lambda l: [a[1] for a in getattr(settings, l, ())]\<close>\<close>

definition get_addresses :: "settings \<Rightarrow> string \<Rightarrow> string list" where
  "get_addresses st l = map snd (getattr_group st l)"

text \<open>\<^verbatim>\<open>recipient in ('ADMINS', 'MANAGERS')\<close>\<close>

definition is_group :: "string \<Rightarrow> bool" where
  "is_group r \<longleftrightarrow> r = ''ADMINS'' \<or> r = ''MANAGERS''"

subsection \<open>Resolving the group names in a list\<close>

text \<open>
  \<^verbatim>\<open>
  for recipient in lst:
      if recipient in ('ADMINS', 'MANAGERS'):
          lst.remove(recipient)
          lst.extend(get_addresses(recipient))
  \<close>
  The list is changed while it is iterated. Python's list iterator keeps an index \<open>i\<close>
  into the live list: each round it stops when \<open>i\<close> has reached the current length, and
  otherwise yields \<open>lst[i]\<close> and increments \<open>i\<close>. \<^verbatim>\<open>lst.remove(x)\<close> deletes the first
  element equal to \<open>x\<close> (\<^const>\<open>remove1\<close>; the element is present, being \<open>lst[i]\<close>), and
  \<^verbatim>\<open>lst.extend\<close> appends. The loop need not end (a group whose addresses are again group
  names can make the list grow as fast as the index), so the result is an option and
  \<^term>\<open>None\<close> stands for a loop that runs forever.
\<close>

partial_function (option) resolve_loop ::
  "(string \<Rightarrow> string list) \<Rightarrow> nat \<Rightarrow> string list \<Rightarrow> string list option" where
  "resolve_loop ga i lst =
     (if i < length lst then
        (if is_group (lst ! i)
         then resolve_loop ga (Suc i) (remove1 (lst ! i) lst @ ga (lst ! i))
         else resolve_loop ga (Suc i) lst)
      else Some lst)"

declare resolve_loop.simps [code]

definition resolve_groups :: "settings \<Rightarrow> string list \<Rightarrow> string list option" where
  "resolve_groups st lst = resolve_loop (get_addresses st) 0 lst"

subsection \<open>Command line and options\<close>

text \<open>
  What the argument parser receives: the three positional arguments and, for every flag
  declared in \<^verbatim>\<open>add_arguments\<close>, whether (or with which value) it was given.
  \<^verbatim>\<open>recipient\<close> has \<^verbatim>\<open>nargs='+'\<close>; \<^verbatim>\<open>verbosity\<close> is the base command's own option.
\<close>

record cli =
  arg_subject :: string
  arg_message :: string
  arg_recipient :: "string list"
  flag_noinput :: bool
  flag_from :: "string option"
  flag_raise_error :: bool
  flag_noprefix :: bool
  flag_bcc :: "string option"
  flag_cc :: "string option"
  flag_verbosity :: int

text \<open>The \<^verbatim>\<open>options\<close> dictionary handed to \<^verbatim>\<open>handle\<close>, keyed by each argument's \<^verbatim>\<open>dest\<close>.\<close>

record options =
  subject :: string
  message :: string
  recipient :: "string list"
  interactive :: bool
  from_email :: "string option"
  fail_silently :: bool
  noprefix :: bool
  bcc :: "string option"
  cc :: "string option"
  verbosity :: int

text \<open>
  \<^verbatim>\<open>add_arguments\<close>: \<^verbatim>\<open>--noinput\<close> is \<^verbatim>\<open>store_false\<close> into \<^verbatim>\<open>interactive\<close> (default true);
  \<^verbatim>\<open>-r/--raise-error\<close> is \<^verbatim>\<open>store_true\<close> into \<^verbatim>\<open>fail_silently\<close> (default false);
  \<^verbatim>\<open>-n/--noprefix\<close> is \<^verbatim>\<open>store_true\<close> into \<^verbatim>\<open>noprefix\<close> (default false); \<^verbatim>\<open>-f\<close>, \<^verbatim>\<open>-b\<close> and
  \<^verbatim>\<open>-c\<close> store their value (default \<^verbatim>\<open>None\<close>).
\<close>

definition add_arguments :: "cli \<Rightarrow> options" where
  "add_arguments a =
     \<lparr>subject = arg_subject a,
      message = arg_message a,
      recipient = arg_recipient a,
      interactive = (if flag_noinput a then False else True),
      from_email = flag_from a,
      fail_silently = (if flag_raise_error a then True else False),
      noprefix = (if flag_noprefix a then True else False),
      bcc = flag_bcc a,
      cc = flag_cc a,
      verbosity = flag_verbosity a\<rparr>"

subsection \<open>Environment, exceptions and effects\<close>

datatype exn =
  CommandError string
  | KeyboardInterrupt
  | EOFError
  | KeyError string
  | ValueError
  | SystemExit nat
  | MailError

text \<open>The arguments of the \<^verbatim>\<open>EmailMessage(...)\<close> constructor call.\<close>

record email =
  em_subject :: string
  em_body :: string
  em_from_email :: string
  em_to :: "string list"
  em_bcc :: "string list option"
  em_cc :: "string list option"

datatype 'a blocking = Got 'a | Interrupted

datatype reply = Line string | Interrupt | EndOfInput

datatype delivery = Delivered | Failed | SendInterrupted

text \<open>
  The world the command runs in. \<open>open_read\<close> gives the file's text or the text of the
  \<^verbatim>\<open>IOError\<close>/\<^verbatim>\<open>OSError\<close>. The operator's interrupt arrives as \<^verbatim>\<open>KeyboardInterrupt\<close> in one
  of the three blocking calls: \<^verbatim>\<open>sys.stdin.read()\<close>, the prompt, and the mail library's
  \<^verbatim>\<open>send\<close>. The prompt can also meet end of input (the prompt function is the one the import
  at the top of the module provides). \<open>deliver\<close> says how the mail backend's attempt to deliver
  a message ends: it delivers, it fails, or the interrupt arrives during the call.
\<close>

record env =
  conf :: settings
  isfile :: "string \<Rightarrow> bool"
  open_read :: "string \<Rightarrow> string + string"
  stdin_read :: "string blocking"
  raw_input :: reply
  validate_email :: "string \<Rightarrow> bool"
  deliver :: "email \<Rightarrow> delivery"

text \<open>What the command does to the outside, in order.\<close>

datatype event =
  StdoutWrite string
  | StderrWrite string
  | ReadFile string
  | ReadStdin
  | Prompt string
  | Send email bool

text \<open>A step yields its effects and either the exception it raised or its value.\<close>

type_synonym 'a io = "event list \<times> (exn + 'a)"

definition bind_io :: "'a io \<Rightarrow> ('a \<Rightarrow> 'b io) \<Rightarrow> 'b io" where
  "bind_io m f =
     (case m of
        (t, Inl x) \<Rightarrow> (t, Inl x)
      | (t, Inr v) \<Rightarrow> (case f v of (t', r) \<Rightarrow> (t @ t', r)))"

definition newline :: string where
  "newline = [CHR 0x0A]"

definition dquote :: string where
  "dquote = [CHR 0x22]"

subsection \<open>The message body (lines 93 to 104)\<close>

text \<open>
  \<^verbatim>\<open>
  if os.path.isfile(message):
      try: message = open(message).read()
      except (IOError, OSError) as exc: raise CommandError(...)
  elif message == '-':
      message = sys.stdin.read()
      options['interactive'] = False
  \<close>
  The result is the body together with the new value of \<^verbatim>\<open>options['interactive']\<close>.
\<close>

definition read_message :: "env \<Rightarrow> string \<Rightarrow> bool \<Rightarrow> (string \<times> bool) io" where
  "read_message e msg ia =
     (if isfile e msg then
        (case open_read e msg of
           Inr text \<Rightarrow> ([ReadFile msg], Inr (text, ia))
         | Inl exc \<Rightarrow>
             ([ReadFile msg],
              Inl (CommandError
                (''Error reading message file '' @ dquote @ msg @ dquote @ '': '' @ exc))))
      else if msg = ''-'' then
        (case stdin_read e of
           Got text \<Rightarrow> ([ReadStdin], Inr (text, False))
         | Interrupted \<Rightarrow> ([ReadStdin], Inl KeyboardInterrupt))
      else ([], Inr (msg, ia)))"

subsection \<open>The copy lists (lines 109 to 111)\<close>

text \<open>\<^verbatim>\<open>s.split(',')\<close>\<close>

fun split_comma :: "string \<Rightarrow> string list" where
  "split_comma [] = [[]]"
| "split_comma (c # cs) =
     (if c = CHR '','' then [] # split_comma cs
      else (case split_comma cs of [] \<Rightarrow> [[c]] | w # ws \<Rightarrow> (c # w) # ws))"

text \<open>
  \<^verbatim>\<open>a.strip()\<close> removes the characters for which \<^verbatim>\<open>str.isspace\<close> holds from both ends; among
  the code points below 256 these are 9 to 13, 28 to 32, 133 and 160.
\<close>

definition is_space :: "char \<Rightarrow> bool" where
  "is_space c \<longleftrightarrow>
     c \<in> set [CHR 0x09, CHR 0x0A, CHR 0x0B, CHR 0x0C, CHR 0x0D,
              CHR 0x1C, CHR 0x1D, CHR 0x1E, CHR 0x1F, CHR 0x20, CHR 0x85, CHR 0xA0]"

definition strip :: "string \<Rightarrow> string" where
  "strip s = rev (dropWhile is_space (rev (dropWhile is_space s)))"

text \<open>
  \<^verbatim>\<open>if options[copy]: options[copy] = [a.strip() for a in options[copy].split(',')]\<close>.
  An empty string is false and stays as it is; every later use (\<^verbatim>\<open>if not lst\<close>,
  \<^verbatim>\<open>options[lst] or []\<close>, the constructor's own \<^verbatim>\<open>if cc:\<close>) treats it as an empty
  sequence, which is how it is represented here.
\<close>

definition split_copy :: "string option \<Rightarrow> string list option" where
  "split_copy v =
     (case v of
        None \<Rightarrow> None
      | Some s \<Rightarrow> (if s = [] then Some [] else Some (map strip (split_comma s))))"

subsection \<open>Validation (lines 121 to 125)\<close>

definition invalid_address :: "string \<Rightarrow> exn" where
  "invalid_address r = CommandError (dquote @ r @ dquote @ '' is not a valid email address'')"

text \<open>
  \<^verbatim>\<open>
  for recipient in lst:
      try: validate_email(recipient)
      except ValidationError: raise CommandError('"{}" is not a valid email address'.format(recipient))
  \<close>
\<close>

fun validate_addresses :: "(string \<Rightarrow> bool) \<Rightarrow> string list \<Rightarrow> exn + unit" where
  "validate_addresses ok [] = Inr ()"
| "validate_addresses ok (r # rs) =
     (if ok r then validate_addresses ok rs else Inl (invalid_address r))"

subsection \<open>One list, then the three lists (lines 113 to 125)\<close>

text \<open>
  The body of \<^verbatim>\<open>for lst in (recipient_list, options['bcc'], options['cc'])\<close>: an empty (or
  missing) list is skipped, any other is resolved in place and then validated.
\<close>

definition process_list :: "env \<Rightarrow> string list \<Rightarrow> (exn + string list) option" where
  "process_list e lst =
     (if lst = [] then Some (Inr lst)
      else (case resolve_groups (conf e) lst of
              None \<Rightarrow> None
            | Some lst' \<Rightarrow>
                (case validate_addresses (validate_email e) lst' of
                   Inl x \<Rightarrow> Some (Inl x)
                 | Inr u \<Rightarrow> Some (Inr lst'))))"

definition process_copy :: "env \<Rightarrow> string list option \<Rightarrow> (exn + string list option) option" where
  "process_copy e v =
     (case v of
        None \<Rightarrow> Some (Inr None)
      | Some lst \<Rightarrow>
          (case process_list e lst of
             None \<Rightarrow> None
           | Some (Inl x) \<Rightarrow> Some (Inl x)
           | Some (Inr lst') \<Rightarrow> Some (Inr (Some lst'))))"

definition process_lists ::
  "env \<Rightarrow> string list \<Rightarrow> string list option \<Rightarrow> string list option \<Rightarrow>
   (exn + string list \<times> string list option \<times> string list option) option" where
  "process_lists e rl b c =
     (case process_list e rl of
        None \<Rightarrow> None
      | Some (Inl x) \<Rightarrow> Some (Inl x)
      | Some (Inr rl') \<Rightarrow>
          (case process_copy e b of
             None \<Rightarrow> None
           | Some (Inl x) \<Rightarrow> Some (Inl x)
           | Some (Inr b') \<Rightarrow>
               (case process_copy e c of
                  None \<Rightarrow> None
                | Some (Inl x) \<Rightarrow> Some (Inl x)
                | Some (Inr c') \<Rightarrow> Some (Inr (rl', b', c')))))"

subsection \<open>Subject and sender (lines 128 to 131)\<close>

text \<open>\<^verbatim>\<open>'{}{}'.format('' if options['noprefix'] else settings.EMAIL_SUBJECT_PREFIX, subject)\<close>\<close>

definition prefixed_subject :: "settings \<Rightarrow> bool \<Rightarrow> string \<Rightarrow> string" where
  "prefixed_subject st np s = (if np then [] else EMAIL_SUBJECT_PREFIX st) @ s"

text \<open>\<^verbatim>\<open>if options['from_email'] is None: options['from_email'] = settings.DEFAULT_FROM_EMAIL\<close>\<close>

definition default_from :: "settings \<Rightarrow> string option \<Rightarrow> string" where
  "default_from st f = (case f of None \<Rightarrow> DEFAULT_FROM_EMAIL st | Some a \<Rightarrow> a)"

subsection \<open>Everything before the preview (lines 89 to 131)\<close>

text \<open>The entries of \<^verbatim>\<open>options\<close> that the rest of the function reads, as they stand after line 131.\<close>

record prepared =
  p_subject :: string
  p_message :: string
  p_from_email :: string
  p_recipient_list :: "string list"
  p_bcc :: "string list option"
  p_cc :: "string list option"
  p_interactive :: bool

definition prepare :: "env \<Rightarrow> options \<Rightarrow> prepared io option" where
  "prepare e opts =
     (case read_message e (message opts) (interactive opts) of
        (t, Inl x) \<Rightarrow> Some (t, Inl x)
      | (t, Inr (body, ia)) \<Rightarrow>
          (case process_lists e (recipient opts) (split_copy (bcc opts)) (split_copy (cc opts)) of
             None \<Rightarrow> None
           | Some (Inl x) \<Rightarrow> Some (t, Inl x)
           | Some (Inr (rl, b, c)) \<Rightarrow>
               Some (t, Inr
                 \<lparr>p_subject = prefixed_subject (conf e) (noprefix opts) (subject opts),
                  p_message = body,
                  p_from_email = default_from (conf e) (from_email opts),
                  p_recipient_list = rl,
                  p_bcc = b,
                  p_cc = c,
                  p_interactive = ia\<rparr>)))"

subsection \<open>The preview (lines 19 to 28 and 133 to 136)\<close>

definition CONFIRM_MESSAGE :: string where
  "CONFIRM_MESSAGE =
     newline @
     ''---------- MESSAGE FOLLOWS ----------'' @ newline @
     ''Subject: {subject}'' @ newline @
     ''From: {from_email}'' @ newline @
     ''To: {recipient_list_formatted}'' @ newline @
     ''Cc: {cc_formatted}'' @ newline @
     newline @
     ''{message}'' @ newline @
     ''------------ END MESSAGE ------------'' @ newline"

text \<open>
  \<^verbatim>\<open>template.format(**kw)\<close> for templates made of literal text and plain \<^verbatim>\<open>{name}\<close> fields
  (no doubled braces, conversions or format specifications, none of which
  \<^const>\<open>CONFIRM_MESSAGE\<close> has). The second argument is the field name read so far, when
  the scan is inside a field. A name missing from \<open>kw\<close> is a \<^verbatim>\<open>KeyError\<close>, an unmatched
  brace a \<^verbatim>\<open>ValueError\<close>.
\<close>

fun format_from :: "(string \<Rightarrow> string option) \<Rightarrow> string option \<Rightarrow> string \<Rightarrow> exn + string" where
  "format_from kw None [] = Inr []"
| "format_from kw (Some n) [] = Inl ValueError"
| "format_from kw None (c # cs) =
     (if c = CHR ''{'' then format_from kw (Some []) cs
      else if c = CHR ''}'' then Inl ValueError
      else (case format_from kw None cs of Inl x \<Rightarrow> Inl x | Inr s \<Rightarrow> Inr (c # s)))"
| "format_from kw (Some n) (c # cs) =
     (if c = CHR ''}'' then
        (case kw n of
           None \<Rightarrow> Inl (KeyError n)
         | Some v \<Rightarrow> (case format_from kw None cs of Inl x \<Rightarrow> Inl x | Inr s \<Rightarrow> Inr (v @ s)))
      else format_from kw (Some (n @ [c])) cs)"

definition format :: "string \<Rightarrow> (string \<Rightarrow> string option) \<Rightarrow> exn + string" where
  "format template kw = format_from kw None template"

text \<open>\<^verbatim>\<open>sep.join(xs)\<close>\<close>

fun join :: "string \<Rightarrow> string list \<Rightarrow> string" where
  "join sep [] = []"
| "join sep [x] = x"
| "join sep (x # y # ys) = x @ sep @ join sep (y # ys)"

text \<open>
  The keyword arguments \<^verbatim>\<open>**options\<close> that the template can name: the two
  \<^verbatim>\<open>_formatted\<close> entries are \<^verbatim>\<open>', '.join(options[lst] or [])\<close>.
\<close>

definition format_kwargs :: "prepared \<Rightarrow> string \<Rightarrow> string option" where
  "format_kwargs p =
     map_of
       [(''subject'', p_subject p),
        (''message'', p_message p),
        (''from_email'', p_from_email p),
        (''recipient_list_formatted'', join '', '' (p_recipient_list p)),
        (''cc_formatted'', join '', '' (case p_cc p of None \<Rightarrow> [] | Some l \<Rightarrow> l))]"

text \<open>
  \<^verbatim>\<open>
  if verbosity > 1 or options['interactive']:
      ...
      self.stdout.write(CONFIRM_MESSAGE.format(**options))
  \<close>
\<close>

definition show_preview :: "options \<Rightarrow> prepared \<Rightarrow> unit io" where
  "show_preview opts p =
     (if verbosity opts > 1 \<or> p_interactive p then
        (case format CONFIRM_MESSAGE (format_kwargs p) of
           Inl x \<Rightarrow> ([], Inl x)
         | Inr s \<Rightarrow> ([StdoutWrite s], Inr ()))
      else ([], Inr ()))"

subsection \<open>The prompt (lines 138 to 141)\<close>

text \<open>\<^verbatim>\<open>s.lower()\<close>, on the ASCII letters.\<close>

definition lower_char :: "char \<Rightarrow> char" where
  "lower_char c =
     (if (65::nat) \<le> of_char c \<and> of_char c \<le> (90::nat)
      then char_of (of_char c + (32::nat)) else c)"

definition lower :: "string \<Rightarrow> string" where
  "lower s = map lower_char s"

text \<open>\<^verbatim>\<open>s.startswith(p)\<close>\<close>

definition startswith :: "string \<Rightarrow> string \<Rightarrow> bool" where
  "startswith s p \<longleftrightarrow> take (length p) s = p"

definition cancelled :: string where
  "cancelled = ''Operation cancelled.'' @ newline"

text \<open>
  \<^verbatim>\<open>
  if options['interactive']:
      if raw_input('Send email message? [Y/n] ').lower().startswith('n'):
          self.stderr.write('Operation cancelled.\n')
          sys.exit(1)
  \<close>
  \<^verbatim>\<open>sys.exit(1)\<close> raises \<^verbatim>\<open>SystemExit(1)\<close>: the process ends with exit code 1.
\<close>

definition ask :: "env \<Rightarrow> prepared \<Rightarrow> unit io" where
  "ask e p =
     (if p_interactive p then
        (case raw_input e of
           Line s \<Rightarrow>
             (if startswith (lower s) ''n''
              then ([Prompt ''Send email message? [Y/n] '', StderrWrite cancelled],
                    Inl (SystemExit 1))
              else ([Prompt ''Send email message? [Y/n] ''], Inr ()))
         | Interrupt \<Rightarrow> ([Prompt ''Send email message? [Y/n] ''], Inl KeyboardInterrupt)
         | EndOfInput \<Rightarrow> ([Prompt ''Send email message? [Y/n] ''], Inl EOFError))
      else ([], Inr ()))"

subsection \<open>Sending (lines 143 to 153)\<close>

definition email_of :: "prepared \<Rightarrow> email" where
  "email_of p =
     \<lparr>em_subject = p_subject p,
      em_body = p_message p,
      em_from_email = p_from_email p,
      em_to = p_recipient_list p,
      em_bcc = p_bcc p,
      em_cc = p_cc p\<rparr>"

text \<open>
  \<^verbatim>\<open>EmailMessage(...).send(fail_silently=...)\<close>: the mail library's contract is that a
  delivery failure is raised, unless \<^verbatim>\<open>fail_silently\<close> is true, when it is swallowed.
  \<^verbatim>\<open>KeyboardInterrupt\<close> is no delivery failure: \<^verbatim>\<open>fail_silently\<close> does not swallow it.
\<close>

definition send :: "env \<Rightarrow> email \<Rightarrow> bool \<Rightarrow> unit io" where
  "send e m fs =
     ([Send m fs],
      case deliver e m of
        Delivered \<Rightarrow> Inr ()
      | Failed \<Rightarrow> (if fs then Inr () else Inl MailError)
      | SendInterrupted \<Rightarrow> Inl KeyboardInterrupt)"

definition report_sent :: "options \<Rightarrow> unit io" where
  "report_sent opts =
     (if verbosity opts > 1 then ([StdoutWrite (''Message sent'' @ newline)], Inr ())
      else ([], Inr ()))"

subsection \<open>The command\<close>

definition handle_send_mail :: "env \<Rightarrow> options \<Rightarrow> unit io option" where
  "handle_send_mail e opts =
     (case prepare e opts of
        None \<Rightarrow> None
      | Some m \<Rightarrow>
          Some (bind_io m (\<lambda>p.
                bind_io (show_preview opts p) (\<lambda>u.
                bind_io (ask e p) (\<lambda>u.
                bind_io (send e (email_of p) (fail_silently opts)) (\<lambda>u.
                report_sent opts))))))"

text \<open>
  \<^verbatim>\<open>
  try: self.handle_send_mail(options)
  except KeyboardInterrupt:
      self.stderr.write('Operation cancelled.\n')
      sys.exit(1)
  \<close>
\<close>

definition handle :: "env \<Rightarrow> options \<Rightarrow> unit io option" where
  "handle e opts =
     (case handle_send_mail e opts of
        None \<Rightarrow> None
      | Some (t, r) \<Rightarrow>
          (if r = Inl KeyboardInterrupt then Some (t @ [StderrWrite cancelled], Inl (SystemExit 1))
           else Some (t, r)))"

text \<open>The messages handed to the mail library in a run.\<close>

fun sent :: "event list \<Rightarrow> email list" where
  "sent [] = []"
| "sent (Send m fs # t) = m # sent t"
| "sent (ev # t) = sent t"

subsection \<open>The preview as the specification lays it out\<close>

text \<open>
  A second definition, written from the specification's section 6 and not from the code, to
  compare the code's output with: the opening banner line, the \<open>Subject\<close>, \<open>From\<close>, \<open>To\<close>
  and \<open>Cc\<close> lines (the lists joined by comma and space), an empty line, the body on its
  line and the closing banner line, every line ended by a newline character.
\<close>

definition preview_layout ::
  "string \<Rightarrow> string \<Rightarrow> string list \<Rightarrow> string list \<Rightarrow> string \<Rightarrow> string" where
  "preview_layout subj sender to_list cc_list body =
     ''---------- MESSAGE FOLLOWS ----------'' @ newline @
     ''Subject: '' @ subj @ newline @
     ''From: '' @ sender @ newline @
     ''To: '' @ join '', '' to_list @ newline @
     ''Cc: '' @ join '', '' cc_list @ newline @
     newline @
     body @ newline @
     ''------------ END MESSAGE ------------'' @ newline"

text \<open>The specification's layout for a prepared request, after one empty line.\<close>

definition expected_preview :: "prepared \<Rightarrow> string" where
  "expected_preview p =
     newline @ preview_layout (p_subject p) (p_from_email p) (p_recipient_list p)
       (case p_cc p of None \<Rightarrow> [] | Some l \<Rightarrow> l) (p_message p)"

subsection \<open>The end of a run\<close>

text \<open>
  The end of a run from the call of the mail library on: the effects after those of the
  preparation, the preview and the prompt, and the outcome of \<^const>\<open>handle\<close>.
\<close>

definition after_send :: "env \<Rightarrow> options \<Rightarrow> prepared \<Rightarrow> unit io" where
  "after_send e opts p =
     (case deliver e (email_of p) of
        Delivered \<Rightarrow>
          (Send (email_of p) (fail_silently opts) #
             (if verbosity opts > 1 then [StdoutWrite (''Message sent'' @ newline)] else []),
           Inr ())
      | Failed \<Rightarrow>
          (if fail_silently opts
           then (Send (email_of p) (fail_silently opts) #
                   (if verbosity opts > 1 then [StdoutWrite (''Message sent'' @ newline)] else []),
                 Inr ())
           else ([Send (email_of p) (fail_silently opts)], Inl MailError))
      | SendInterrupted \<Rightarrow>
          ([Send (email_of p) (fail_silently opts), StderrWrite cancelled], Inl (SystemExit 1)))"

subsection \<open>Concrete runs\<close>

text \<open>
  A small world to run the command in. Its address check (an address is one that contains
  an at sign) stands in for the mail library's \<^verbatim>\<open>validate_email\<close> in these runs only; the
  general theorems hold for every check.
\<close>

definition example_settings :: settings where
  "example_settings =
     \<lparr>ADMINS = Some [(''Root'', ''root@x.com''), (''Ops'', ''ops@x.com'')],
      MANAGERS = Some [(''Boss'', ''boss@x.com'')],
      EMAIL_SUBJECT_PREFIX = ''[Django] '',
      DEFAULT_FROM_EMAIL = ''webmaster@localhost''\<rparr>"

definition example_env :: env where
  "example_env =
     \<lparr>conf = example_settings,
      isfile = (\<lambda>path. False),
      open_read = (\<lambda>path. Inl ''No such file or directory''),
      stdin_read = Got ''text on stdin'',
      raw_input = Line ''y'',
      validate_email = (\<lambda>a. CHR ''@'' \<in> set a),
      deliver = (\<lambda>m. Delivered)\<rparr>"

definition example_cli :: cli where
  "example_cli =
     \<lparr>arg_subject = ''Hello'',
      arg_message = ''Hi there'',
      arg_recipient = [''a@x.com''],
      flag_noinput = False,
      flag_from = None,
      flag_raise_error = False,
      flag_noprefix = False,
      flag_bcc = None,
      flag_cc = None,
      flag_verbosity = 1\<rparr>"

text \<open>The same world with a regular file named \<^verbatim>\<open>-\<close> in the working directory.\<close>

definition dash_file_env :: env where
  "dash_file_env =
     example_env\<lparr>isfile := (\<lambda>path. path = ''-''), open_read := (\<lambda>path. Inr ''text of the file'')\<rparr>"

section \<open>Properties\<close>

subsection \<open>Auxiliary facts\<close>

lemma filter_remove1_other: "\<not> P r \<Longrightarrow> filter P (remove1 r l) = filter P l"
  by (induction l) auto

text \<open>The loop only ever deletes group names: the other entries keep their order and number.\<close>

lemma resolve_loop_keeps_plain:
  assumes "resolve_loop ga i lst = Some out"
  shows "prefix (filter (\<lambda>a. \<not> is_group a) lst) (filter (\<lambda>a. \<not> is_group a) out)"
proof (rule resolve_loop.raw_induct
    [where P = "\<lambda>ga i lst out.
        prefix (filter (\<lambda>a. \<not> is_group a) lst) (filter (\<lambda>a. \<not> is_group a) out)",
     OF _ assms])
  fix f :: "(string \<Rightarrow> string list) \<Rightarrow> nat \<Rightarrow> string list \<Rightarrow> string list option"
    and ga i lst out
  assume IH: "\<And>ga i lst out. f ga i lst = Some out \<Longrightarrow>
      prefix (filter (\<lambda>a. \<not> is_group a) lst) (filter (\<lambda>a. \<not> is_group a) out)"
    and step: "(if i < length lst
         then if is_group (lst ! i)
              then f ga (Suc i) (remove1 (lst ! i) lst @ ga (lst ! i))
              else f ga (Suc i) lst
         else Some lst) = Some out"
  show "prefix (filter (\<lambda>a. \<not> is_group a) lst) (filter (\<lambda>a. \<not> is_group a) out)"
  proof (cases "i < length lst")
    case False
    with step show ?thesis by simp
  next
    case True
    show ?thesis
    proof (cases "is_group (lst ! i)")
      case False
      with True step IH show ?thesis by simp
    next
      case g: True
      with True step have "f ga (Suc i) (remove1 (lst ! i) lst @ ga (lst ! i)) = Some out"
        by simp
      from IH [OF this] g show ?thesis
        by (simp add: filter_remove1_other append_prefixD)
    qed
  qed
qed

lemma filter_remove1_less:
  "x \<in> set l \<Longrightarrow> P x \<Longrightarrow> length (filter P (remove1 x l)) < length (filter P l)"
  by (induction l) auto

text \<open>
  The loop ends whenever the addresses of the groups are not themselves group names: each
  round either deletes a group name or moves the index on.
\<close>

lemma resolve_loop_terminates:
  assumes plain: "\<And>g a. is_group g \<Longrightarrow> a \<in> set (ga g) \<Longrightarrow> \<not> is_group a"
  shows "\<exists>out. resolve_loop ga i lst = Some out"
proof (induction "length (filter is_group lst)" arbitrary: i lst rule: less_induct)
  case outer: less
  show ?case
  proof (induction "length lst - i" arbitrary: i rule: less_induct)
    case inner: less
    show ?case
    proof (cases "i < length lst")
      case False
      then show ?thesis by (simp add: resolve_loop.simps)
    next
      case True
      show ?thesis
      proof (cases "is_group (lst ! i)")
        case False
        from True have "length lst - Suc i < length lst - i" by simp
        from inner [OF this] obtain out where "resolve_loop ga (Suc i) lst = Some out" by blast
        with True False show ?thesis by (subst resolve_loop.simps) simp
      next
        case g: True
        from plain [OF g] have "filter is_group (ga (lst ! i)) = []"
          by (auto simp: filter_empty_conv)
        moreover from True have "lst ! i \<in> set lst" by simp
        ultimately have
          "length (filter is_group (remove1 (lst ! i) lst @ ga (lst ! i))) < length (filter is_group lst)"
          using g by (simp add: filter_remove1_less)
        from outer [OF this] obtain out where
          "resolve_loop ga (Suc i) (remove1 (lst ! i) lst @ ga (lst ! i)) = Some out" by blast
        with True g show ?thesis by (subst resolve_loop.simps) simp
      qed
    qed
  qed
qed

text \<open>A group that lists its own name twice keeps the loop running for ever.\<close>

lemma resolve_loop_diverges:
  assumes self: "ga ''ADMINS'' = [''ADMINS'', ''ADMINS'']"
  shows "resolve_loop ga i (replicate (Suc i) ''ADMINS'') = None"
proof (rule ccontr)
  assume "resolve_loop ga i (replicate (Suc i) ''ADMINS'') \<noteq> None"
  then obtain out where r: "resolve_loop ga i (replicate (Suc i) ''ADMINS'') = Some out"
    by blast
  have "ga \<noteq> ga \<or> replicate (Suc i) ''ADMINS'' \<noteq> replicate (Suc i) ''ADMINS''"
  proof (rule resolve_loop.raw_induct
      [where P = "\<lambda>g i lst out. g \<noteq> ga \<or> lst \<noteq> replicate (Suc i) ''ADMINS''", OF _ r])
    fix f :: "(string \<Rightarrow> string list) \<Rightarrow> nat \<Rightarrow> string list \<Rightarrow> string list option"
      and g i lst out
    assume IH: "\<And>g i lst out. f g i lst = Some out \<Longrightarrow>
        g \<noteq> ga \<or> lst \<noteq> replicate (Suc i) ''ADMINS''"
      and step: "(if i < length lst
           then if is_group (lst ! i)
                then f g (Suc i) (remove1 (lst ! i) lst @ g (lst ! i))
                else f g (Suc i) lst
           else Some lst) = Some out"
    show "g \<noteq> ga \<or> lst \<noteq> replicate (Suc i) ''ADMINS''"
    proof (rule ccontr)
      assume "\<not> (g \<noteq> ga \<or> lst \<noteq> replicate (Suc i) ''ADMINS'')"
      then have g: "g = ga" and l: "lst = replicate (Suc i) ''ADMINS''" by simp_all
      have at: "lst ! i = ''ADMINS''"
        unfolding l by (rule nth_replicate) simp
      have "remove1 ''ADMINS'' lst @ ga ''ADMINS'' = replicate (Suc (Suc i)) ''ADMINS''"
        using self l by (simp add: replicate_app_Cons_same)
      with step g l at have "f ga (Suc i) (replicate (Suc (Suc i)) ''ADMINS'') = Some out"
        by (simp add: is_group_def del: replicate_Suc)
      from IH [OF this] show False by simp
    qed
  qed
  then show False by simp
qed

lemma validate_addresses_ok: "validate_addresses ok l = Inr u \<longleftrightarrow> (\<forall>a \<in> set l. ok a)"
  by (induction l) auto

lemma validate_addresses_first:
  "(\<forall>a \<in> set xs. ok a) \<Longrightarrow> \<not> ok b \<Longrightarrow>
   validate_addresses ok (xs @ b # ys) = Inl (invalid_address b)"
  by (induction xs) auto

lemma process_list_Inr:
  assumes "process_list e lst = Some (Inr out)"
  shows "(\<forall>a \<in> set out. validate_email e a) \<and>
         prefix (filter (\<lambda>a. \<not> is_group a) lst) (filter (\<lambda>a. \<not> is_group a) out)"
  using assms
  by (auto simp: process_list_def resolve_groups_def validate_addresses_ok
      dest: resolve_loop_keeps_plain split: if_splits option.splits sum.splits)

lemma format_CONFIRM_MESSAGE:
  "format CONFIRM_MESSAGE (format_kwargs p) =
     Inr (newline @ preview_layout (p_subject p) (p_from_email p) (p_recipient_list p)
            (case p_cc p of None \<Rightarrow> [] | Some l \<Rightarrow> l) (p_message p))"
  by (simp add: format_def CONFIRM_MESSAGE_def format_kwargs_def preview_layout_def newline_def)

lemma show_preview_eq:
  "show_preview opts p =
     (if verbosity opts > 1 \<or> p_interactive p
      then ([StdoutWrite (newline @ preview_layout (p_subject p) (p_from_email p)
               (p_recipient_list p) (case p_cc p of None \<Rightarrow> [] | Some l \<Rightarrow> l) (p_message p))],
            Inr ())
      else ([], Inr ()))"
  by (simp add: show_preview_def format_CONFIRM_MESSAGE)

lemma char_of_110: "char_of (110::nat) = CHR ''n''"
proof -
  have "(of_char (char_of (110::nat)) :: nat) = of_char (CHR ''n'')"
    by (simp add: of_char_of)
  then show ?thesis by (simp only: of_char_eq_iff)
qed

lemma lower_char_n: "lower_char c = CHR ''n'' \<longleftrightarrow> c = CHR ''n'' \<or> c = CHR ''N''"
proof -
  have "c = CHR ''N''" if "65 \<le> (of_char c :: nat)" "(of_char c :: nat) \<le> 90"
    "char_of (of_char c + (32::nat)) = CHR ''n''"
  proof -
    have "of_char (char_of (of_char c + (32::nat))) = (of_char (CHR ''n'') :: nat)"
      using that(3) by simp
    then have "(of_char c + 32) mod 256 = (110::nat)"
      by (simp add: of_char_of)
    with that(2) have "(of_char c :: nat) = 78" by simp
    then have "(of_char c :: nat) = of_char (CHR ''N'')" by simp
    then show ?thesis by (simp only: of_char_eq_iff)
  qed
  then show ?thesis
    by (auto simp: lower_char_def char_of_110)
qed

lemma startswith_lower_n:
  "startswith (lower s) ''n'' \<longleftrightarrow> (\<exists>rest. s = CHR ''n'' # rest \<or> s = CHR ''N'' # rest)"
  by (cases s) (auto simp: startswith_def lower_def lower_char_n)

lemma sent_append: "sent (t @ t') = sent t @ sent t'"
  by (induction t rule: sent.induct) auto

lemma sent_iff: "m \<in> set (sent t) \<longleftrightarrow> (\<exists>fs. Send m fs \<in> set t)"
  by (induction t rule: sent.induct) auto

lemma read_message_trace:
  "read_message e msg ia = (t, r) \<Longrightarrow>
     t = (if isfile e msg then [ReadFile msg] else if msg = ''-'' then [ReadStdin] else [])"
  by (auto simp: read_message_def split: if_splits sum.splits blocking.splits)

lemma prepare_trace:
  assumes "prepare e opts = Some (t0, r)"
  shows "t0 = (if isfile e (message opts) then [ReadFile (message opts)]
               else if message opts = ''-'' then [ReadStdin] else [])"
proof -
  obtain t x where rm: "read_message e (message opts) (interactive opts) = (t, x)"
    by (cases "read_message e (message opts) (interactive opts)")
  with assms have "t0 = t"
    by (auto simp: prepare_def split: sum.splits option.splits prod.splits)
  with read_message_trace [OF rm] show ?thesis by simp
qed

lemma process_copy_Inr:
  assumes "process_copy e v = Some (Inr w)"
  shows "(v = None \<longrightarrow> w = None) \<and>
         (\<forall>lst. v = Some lst \<longrightarrow>
            (\<exists>out. w = Some out \<and> (\<forall>a \<in> set out. validate_email e a) \<and>
               prefix (filter (\<lambda>a. \<not> is_group a) lst) (filter (\<lambda>a. \<not> is_group a) out)))"
  using assms
  by (auto simp: process_copy_def split: option.splits sum.splits dest: process_list_Inr)

lemma process_lists_Inr:
  assumes "process_lists e rl b c = Some (Inr (rl', b', c'))"
  shows "process_list e rl = Some (Inr rl') \<and> process_copy e b = Some (Inr b') \<and>
         process_copy e c = Some (Inr c')"
  using assms
  by (auto simp: process_lists_def split: option.splits sum.splits)

lemma prepare_Inr:
  assumes "prepare e opts = Some (t0, Inr p)"
  shows "\<exists>body. read_message e (message opts) (interactive opts) = (t0, Inr (body, p_interactive p)) \<and>
           p_message p = body \<and>
           p_subject p = prefixed_subject (conf e) (noprefix opts) (subject opts) \<and>
           p_from_email p = default_from (conf e) (from_email opts) \<and>
           process_list e (recipient opts) = Some (Inr (p_recipient_list p)) \<and>
           process_copy e (split_copy (bcc opts)) = Some (Inr (p_bcc p)) \<and>
           process_copy e (split_copy (cc opts)) = Some (Inr (p_cc p))"
  using assms
  by (auto simp: prepare_def split: sum.splits option.splits prod.splits
      dest!: process_lists_Inr)

text \<open>What the run does once the preparation has succeeded.\<close>

lemma handle_send_mail_prepared:
  assumes "prepare e opts = Some (t0, Inr p)"
  shows "handle_send_mail e opts =
     Some (case bind_io (show_preview opts p) (\<lambda>u.
                bind_io (ask e p) (\<lambda>u.
                bind_io (send e (email_of p) (fail_silently opts)) (\<lambda>u.
                report_sent opts))) of (t', r) \<Rightarrow> (t0 @ t', r))"
  using assms by (simp add: handle_send_mail_def bind_io_def split: prod.splits sum.splits)

lemma handle_send_mail_failed:
  assumes "prepare e opts = Some (t0, Inl x)"
  shows "handle_send_mail e opts = Some (t0, Inl x)"
  using assms by (simp add: handle_send_mail_def bind_io_def)

lemma handle_send_mail_Some:
  assumes "handle_send_mail e opts = Some (t, r)"
  shows "\<exists>t0 r0. prepare e opts = Some (t0, r0)"
  using assms by (auto simp: handle_send_mail_def split: option.splits)

lemma handle_Some:
  assumes "handle e opts = Some (t, r)"
  shows "\<exists>t' r'. handle_send_mail e opts = Some (t', r') \<and> sent t = sent t' \<and>
           (t = t' \<or> t = t' @ [StderrWrite cancelled])"
  using assms
  by (auto simp: handle_def sent_append split: option.splits if_splits)

lemma sent_prepare:
  assumes "prepare e opts = Some (t0, r)"
  shows "sent t0 = []"
  using prepare_trace [OF assms] by simp

text \<open>Every message handed to the mail library is the prepared one.\<close>

lemma handle_sent:
  assumes "handle e opts = Some (t, r)" and "Send m fs \<in> set t"
  shows "\<exists>t0 p. prepare e opts = Some (t0, Inr p) \<and> m = email_of p \<and> fs = fail_silently opts"
proof -
  from handle_Some [OF assms(1)] obtain t' r' where
    h: "handle_send_mail e opts = Some (t', r')" and tt: "t = t' \<or> t = t' @ [StderrWrite cancelled]"
    by blast
  from tt assms(2) have s: "Send m fs \<in> set t'" by auto
  from handle_send_mail_Some [OF h] obtain t0 r0 where p: "prepare e opts = Some (t0, r0)"
    by blast
  from prepare_trace [OF p] have n0: "Send m fs \<notin> set t0" by (simp split: if_splits)
  show ?thesis
  proof (cases r0)
    case (Inl x)
    with p h handle_send_mail_failed [of e opts t0 x] n0 s show ?thesis by simp
  next
    case (Inr q)
    with p have pq: "prepare e opts = Some (t0, Inr q)" by simp
    from handle_send_mail_prepared [OF pq] h s n0
    have "m = email_of q \<and> fs = fail_silently opts"
      by (auto simp: bind_io_def show_preview_eq ask_def send_def report_sent_def
          split: if_splits reply.splits prod.splits sum.splits delivery.splits)
    with pq show ?thesis by blast
  qed
qed

lemma handle_trace_cases:
  assumes "handle e opts = Some (t, r)"
  shows "\<exists>t0 r0 t1. prepare e opts = Some (t0, r0) \<and> t = t0 @ t1 \<and> ReadStdin \<notin> set t1 \<and>
           (\<forall>q. Prompt q \<in> set t1 \<longrightarrow> (\<exists>p. r0 = Inr p \<and> p_interactive p))"
proof -
  from handle_Some [OF assms] obtain t' r' where
    h: "handle_send_mail e opts = Some (t', r')" and tt: "t = t' \<or> t = t' @ [StderrWrite cancelled]"
    by blast
  from handle_send_mail_Some [OF h] obtain t0 r0 where p: "prepare e opts = Some (t0, r0)"
    by blast
  have "\<exists>t1. t' = t0 @ t1 \<and> ReadStdin \<notin> set t1 \<and>
           (\<forall>q. Prompt q \<in> set t1 \<longrightarrow> (\<exists>p. r0 = Inr p \<and> p_interactive p))"
  proof (cases r0)
    case (Inl x)
    with p h handle_send_mail_failed [of e opts t0 x] show ?thesis by simp
  next
    case (Inr q)
    with p have pq: "prepare e opts = Some (t0, Inr q)" by simp
    from handle_send_mail_prepared [OF pq] h Inr show ?thesis
      by (auto simp: bind_io_def show_preview_eq ask_def send_def report_sent_def
          split: if_splits reply.splits prod.splits sum.splits delivery.splits)
  qed
  then obtain t1 where t1: "t' = t0 @ t1" "ReadStdin \<notin> set t1"
    "\<forall>q. Prompt q \<in> set t1 \<longrightarrow> (\<exists>p. r0 = Inr p \<and> p_interactive p)" by blast
  from tt show ?thesis
  proof
    assume "t = t'"
    with p t1 show ?thesis by blast
  next
    assume "t = t' @ [StderrWrite cancelled]"
    with t1 have "t = t0 @ (t1 @ [StderrWrite cancelled])" "ReadStdin \<notin> set (t1 @ [StderrWrite cancelled])"
      "\<forall>q. Prompt q \<in> set (t1 @ [StderrWrite cancelled]) \<longrightarrow> (\<exists>p. r0 = Inr p \<and> p_interactive p)"
      by auto
    with p show ?thesis by blast
  qed
qed

lemma sent_after_send: "sent (fst (after_send e opts p)) = [email_of p]"
  by (simp add: after_send_def split: delivery.splits)

lemma handle_interactive:
  assumes "prepare e opts = Some (t0, Inr p)" and "p_interactive p"
  shows "handle e opts =
     Some (case raw_input e of
        Line s \<Rightarrow>
          if startswith (lower s) ''n''
          then (t0 @ [StdoutWrite (expected_preview p), Prompt ''Send email message? [Y/n] '',
                      StderrWrite cancelled], Inl (SystemExit 1))
          else (t0 @ [StdoutWrite (expected_preview p), Prompt ''Send email message? [Y/n] ''] @
                  fst (after_send e opts p),
                snd (after_send e opts p))
      | Interrupt \<Rightarrow>
          (t0 @ [StdoutWrite (expected_preview p), Prompt ''Send email message? [Y/n] '',
                 StderrWrite cancelled], Inl (SystemExit 1))
      | EndOfInput \<Rightarrow>
          (t0 @ [StdoutWrite (expected_preview p), Prompt ''Send email message? [Y/n] ''],
           Inl EOFError))"
  using assms(2)
  by (simp add: handle_def handle_send_mail_prepared [OF assms(1)] bind_io_def show_preview_eq
      ask_def send_def report_sent_def expected_preview_def after_send_def
      split: reply.splits delivery.splits)

lemma handle_not_interactive:
  assumes "prepare e opts = Some (t0, Inr p)" and "\<not> p_interactive p"
  shows "handle e opts =
     Some (t0 @ (if verbosity opts > 1 then [StdoutWrite (expected_preview p)] else []) @
             fst (after_send e opts p),
           snd (after_send e opts p))"
  using assms(2)
  by (simp add: handle_def handle_send_mail_prepared [OF assms(1)] bind_io_def show_preview_eq
      ask_def send_def report_sent_def expected_preview_def after_send_def
      split: delivery.splits)

lemma process_list_terminates:
  assumes "\<And>g a. is_group g \<Longrightarrow> a \<in> set (get_addresses (conf e) g) \<Longrightarrow> \<not> is_group a"
  shows "\<exists>r. process_list e lst = Some r"
proof -
  from resolve_loop_terminates [of "get_addresses (conf e)" 0 lst] assms
  obtain out where "resolve_groups (conf e) lst = Some out"
    by (auto simp: resolve_groups_def)
  then show ?thesis
    by (simp add: process_list_def split: sum.splits)
qed

text \<open>Under the same condition on the settings every run of the command ends.\<close>

lemma handle_terminates:
  assumes "\<And>g a. is_group g \<Longrightarrow> a \<in> set (get_addresses (conf e) g) \<Longrightarrow> \<not> is_group a"
  shows "\<exists>t r. handle e opts = Some (t, r)"
proof -
  have pl: "\<exists>r. process_list e lst = Some r" for lst
    using assms by (rule process_list_terminates)
  have pc: "\<exists>r. process_copy e v = Some r" for v
    using pl [of "the v"] by (cases v) (auto simp: process_copy_def split: sum.splits)
  have "\<exists>r. process_lists e rl b c = Some r" for rl b c
    using pl [of rl] pc [of b] pc [of c]
    by (auto simp: process_lists_def split: sum.splits)
  then obtain r where
    "process_lists e (recipient opts) (split_copy (bcc opts)) (split_copy (cc opts)) = Some r"
    by blast
  then have "\<exists>r. prepare e opts = Some r"
    by (simp add: prepare_def split: prod.splits sum.splits)
  then have "\<exists>r. handle_send_mail e opts = Some r"
    by (auto simp: handle_send_mail_def)
  then show ?thesis
    by (auto simp: handle_def)
qed

subsection \<open>Facts about the concrete runs\<close>

lemmas run_defs =
  handle_def handle_send_mail_def prepare_def read_message_def process_lists_def
  process_copy_def process_list_def resolve_groups_def resolve_loop.simps get_addresses_def
  getattr_group_def is_group_def split_copy_def strip_def is_space_def
  prefixed_subject_def default_from_def bind_io_def show_preview_eq ask_def send_def
  report_sent_def email_of_def add_arguments_def example_env_def example_settings_def
  example_cli_def startswith_def lower_def lower_char_def cancelled_def

lemma example_send_run:
  "handle example_env
     (add_arguments (example_cli\<lparr>arg_recipient := [''a@x.com'', ''ADMINS'', ''a@x.com''],
        flag_bcc := Some ''b@x.com, b@x.com ,MANAGERS'', flag_cc := Some ''c@x.com, c@x.com'',
        flag_noinput := True\<rparr>)) =
   Some ([Send \<lparr>em_subject = ''[Django] Hello'', em_body = ''Hi there'',
                em_from_email = ''webmaster@localhost'',
                em_to = [''a@x.com'', ''a@x.com'', ''root@x.com'', ''ops@x.com''],
                em_bcc = Some [''b@x.com'', ''b@x.com'', ''boss@x.com''],
                em_cc = Some [''c@x.com'', ''c@x.com'']\<rparr> False], Inr ())"
  by (simp add: run_defs validate_addresses_ok)

lemma example_from_run:
  "handle example_env
     (add_arguments (example_cli\<lparr>flag_from := Some ''me@x.com'', flag_noprefix := True,
        flag_noinput := True\<rparr>)) =
   Some ([Send \<lparr>em_subject = ''Hello'', em_body = ''Hi there'',
                em_from_email = ''me@x.com'', em_to = [''a@x.com''],
                em_bcc = None, em_cc = None\<rparr> False], Inr ())"
  by (simp add: run_defs validate_addresses_ok)

lemma example_prepare:
  "prepare example_env (add_arguments example_cli) =
     Some ([], Inr \<lparr>p_subject = ''[Django] Hello'', p_message = ''Hi there'',
                    p_from_email = ''webmaster@localhost'', p_recipient_list = [''a@x.com''],
                    p_bcc = None, p_cc = None, p_interactive = True\<rparr>)"
  by (simp add: run_defs validate_addresses_ok)

lemma example_prepare_reply:
  "prepare (example_env\<lparr>raw_input := x\<rparr>) (add_arguments example_cli) =
     Some ([], Inr \<lparr>p_subject = ''[Django] Hello'', p_message = ''Hi there'',
                    p_from_email = ''webmaster@localhost'', p_recipient_list = [''a@x.com''],
                    p_bcc = None, p_cc = None, p_interactive = True\<rparr>)"
  by (simp add: run_defs validate_addresses_ok)

subsection \<open>Group resolution\<close>

text \<open>
  Claim C1. The claim: resolving removes every group name from the list and appends its
  addresses once per occurrence, also for two group names in a row. The code at the input
  \<^verbatim>\<open>["ADMINS", "MANAGERS"]\<close>: removing \<^verbatim>\<open>ADMINS\<close> moves \<^verbatim>\<open>MANAGERS\<close> to index 0, which the
  iterator has already passed, so \<^verbatim>\<open>MANAGERS\<close> stays in the list unresolved, its addresses are
  never appended, and the command then rejects \<^verbatim>\<open>MANAGERS\<close> as an invalid address.
\<close>

theorem consecutive_groups_second_is_skipped:
  "resolve_groups example_settings [''ADMINS'', ''MANAGERS''] =
     Some [''MANAGERS'', ''root@x.com'', ''ops@x.com''] \<and>
   handle example_env (add_arguments (example_cli\<lparr>arg_recipient := [''ADMINS'', ''MANAGERS'']\<rparr>)) =
     Some ([], Inl (CommandError ([CHR 0x22] @ ''MANAGERS'' @ [CHR 0x22] @ '' is not a valid email address'')))"
  by (simp add: run_defs invalid_address_def dquote_def)

subsection \<open>The raise-error flag\<close>

text \<open>
  Claim C2. The claim: giving \<^verbatim>\<open>-r/--raise-error\<close> makes delivery failures propagate. The
  code stores the flag as \<^verbatim>\<open>fail_silently\<close>, so \<^verbatim>\<open>fail_silently\<close> is true exactly when the
  flag is given: with the flag a failed delivery is swallowed and the command ends normally,
  without it the failure is raised.
\<close>

theorem raise_error_flag_silences_failure:
  "fail_silently (add_arguments a) = flag_raise_error a \<and>
   handle (example_env\<lparr>deliver := (\<lambda>m. Failed)\<rparr>)
       (add_arguments (example_cli\<lparr>flag_noinput := True, flag_raise_error := True\<rparr>)) =
     Some ([Send \<lparr>em_subject = ''[Django] Hello'', em_body = ''Hi there'',
                  em_from_email = ''webmaster@localhost'', em_to = [''a@x.com''],
                  em_bcc = None, em_cc = None\<rparr> True], Inr ()) \<and>
   handle (example_env\<lparr>deliver := (\<lambda>m. Failed)\<rparr>)
       (add_arguments (example_cli\<lparr>flag_noinput := True\<rparr>)) =
     Some ([Send \<lparr>em_subject = ''[Django] Hello'', em_body = ''Hi there'',
                  em_from_email = ''webmaster@localhost'', em_to = [''a@x.com''],
                  em_bcc = None, em_cc = None\<rparr> False], Inl MailError)"
  by (simp add: run_defs)

subsection \<open>Validation\<close>

text \<open>
  Claim C3. For a list as it stands after group resolution, validation checks the entries
  in list order. It raises the error that names the first entry the check rejects,
  whatever follows that entry; when the check accepts every entry it raises nothing and
  the list goes on unchanged.
\<close>

theorem validation_fails_fast:
  assumes "resolve_groups (conf e) lst = Some res"
  shows "((\<forall>a \<in> set res. validate_email e a) \<longrightarrow>
            validate_addresses (validate_email e) res = Inr () \<and>
            process_list e lst = Some (Inr res)) \<and>
         (\<forall>xs b ys. res = xs @ b # ys \<and> (\<forall>a \<in> set xs. validate_email e a) \<and>
              \<not> validate_email e b \<longrightarrow>
            validate_addresses (validate_email e) res =
              Inl (CommandError ([CHR 0x22] @ b @ [CHR 0x22] @ '' is not a valid email address'')) \<and>
            process_list e lst =
              Some (Inl (CommandError ([CHR 0x22] @ b @ [CHR 0x22] @ '' is not a valid email address''))))"
proof (intro conjI impI allI)
  assume ok: "\<forall>a \<in> set res. validate_email e a"
  then show v: "validate_addresses (validate_email e) res = Inr ()"
    by (simp add: validate_addresses_ok)
  show "process_list e lst = Some (Inr res)"
  proof (cases "lst = []")
    case True
    with assms have "res = []"
      by (simp add: resolve_groups_def resolve_loop.simps)
    with True show ?thesis by (simp add: process_list_def)
  next
    case False
    with assms v show ?thesis by (simp add: process_list_def)
  qed
next
  fix xs b ys
  assume h: "res = xs @ b # ys \<and> (\<forall>a \<in> set xs. validate_email e a) \<and> \<not> validate_email e b"
  then show v: "validate_addresses (validate_email e) res =
      Inl (CommandError ([CHR 0x22] @ b @ [CHR 0x22] @ '' is not a valid email address''))"
    using validate_addresses_first [of xs "validate_email e" b ys]
    by (simp add: invalid_address_def dquote_def)
  have "lst \<noteq> []"
  proof
    assume "lst = []"
    with assms have "res = []" by (simp add: resolve_groups_def resolve_loop.simps)
    with h show False by simp
  qed
  with assms v show "process_list e lst =
      Some (Inl (CommandError ([CHR 0x22] @ b @ [CHR 0x22] @ '' is not a valid email address'')))"
    by (simp add: process_list_def)
qed

lemma example_resolve:
  "resolve_groups (conf example_env) [''a@x.com'', ''ADMINS'', ''bad'', ''worse''] =
     Some [''a@x.com'', ''bad'', ''worse'', ''root@x.com'', ''ops@x.com'']"
  by (simp add: resolve_groups_def resolve_loop.simps example_env_def example_settings_def
      get_addresses_def getattr_group_def is_group_def)

theorem validation_fails_fast_witness:
  "process_list example_env [''a@x.com'', ''ADMINS'', ''bad'', ''worse''] =
     Some (Inl (CommandError ([CHR 0x22] @ ''bad'' @ [CHR 0x22] @ '' is not a valid email address'')))"
  using validation_fails_fast [OF example_resolve]
  apply -
  apply (drule conjunct2)
  apply (drule spec [of _ "[''a@x.com'']"])
  apply (drule spec [of _ "''bad''"])
  apply (drule spec [of _ "[''worse'', ''root@x.com'', ''ops@x.com'']"])
  apply (simp add: example_env_def)
  done

subsection \<open>What reaches the mail library\<close>

text \<open>
  Claim C4. Whenever the command hands a message to the mail library, every address in its
  to, cc and bcc lists has passed validation, and the entries of each input list that are
  not group names are all still there, in their order and number, ahead of everything that
  resolution appended (they are a prefix of the sent list once the group names are left
  out, and of the sent list itself when the validator rejects the two group names). The
  message has a cc (bcc) list exactly when \<^verbatim>\<open>-c\<close> (\<^verbatim>\<open>-b\<close>) was given, and that list comes
  from the entries given there, split at the commas and stripped.
\<close>

theorem sent_addresses_valid_and_kept:
  assumes "handle e opts = Some (t, r)" and "Send m fs \<in> set t"
  shows "(\<forall>a \<in> set (em_to m). validate_email e a) \<and>
         prefix (filter (\<lambda>a. \<not> is_group a) (recipient opts))
                (filter (\<lambda>a. \<not> is_group a) (em_to m)) \<and>
         (\<not> validate_email e ''ADMINS'' \<and> \<not> validate_email e ''MANAGERS'' \<longrightarrow>
            prefix (filter (\<lambda>a. \<not> is_group a) (recipient opts)) (em_to m)) \<and>
         (em_bcc m = None \<longleftrightarrow> bcc opts = None) \<and>
         (\<forall>s. bcc opts = Some s \<longrightarrow>
            (\<exists>l. em_bcc m = Some l \<and> (\<forall>a \<in> set l. validate_email e a) \<and>
               prefix (filter (\<lambda>a. \<not> is_group a) (if s = [] then [] else map strip (split_comma s)))
                      (filter (\<lambda>a. \<not> is_group a) l) \<and>
               (\<not> validate_email e ''ADMINS'' \<and> \<not> validate_email e ''MANAGERS'' \<longrightarrow>
                  prefix (filter (\<lambda>a. \<not> is_group a)
                            (if s = [] then [] else map strip (split_comma s))) l))) \<and>
         (em_cc m = None \<longleftrightarrow> cc opts = None) \<and>
         (\<forall>s. cc opts = Some s \<longrightarrow>
            (\<exists>l. em_cc m = Some l \<and> (\<forall>a \<in> set l. validate_email e a) \<and>
               prefix (filter (\<lambda>a. \<not> is_group a) (if s = [] then [] else map strip (split_comma s)))
                      (filter (\<lambda>a. \<not> is_group a) l) \<and>
               (\<not> validate_email e ''ADMINS'' \<and> \<not> validate_email e ''MANAGERS'' \<longrightarrow>
                  prefix (filter (\<lambda>a. \<not> is_group a)
                            (if s = [] then [] else map strip (split_comma s))) l)))"
proof -
  from handle_sent [OF assms] obtain t0 p where
    p: "prepare e opts = Some (t0, Inr p)" and m: "m = email_of p"
    by blast
  from prepare_Inr [OF p] have
    rl: "process_list e (recipient opts) = Some (Inr (p_recipient_list p))" and
    b: "process_copy e (split_copy (bcc opts)) = Some (Inr (p_bcc p))" and
    c: "process_copy e (split_copy (cc opts)) = Some (Inr (p_cc p))"
    by auto
  note to_ok = process_list_Inr [OF rl]
  have plain: "filter (\<lambda>a. \<not> is_group a) l = l"
    if "\<forall>a \<in> set l. validate_email e a"
      "\<not> validate_email e ''ADMINS'' \<and> \<not> validate_email e ''MANAGERS''" for l
    using that by (auto simp: is_group_def filter_id_conv)
  have to_part: "(\<forall>a \<in> set (em_to m). validate_email e a) \<and>
         prefix (filter (\<lambda>a. \<not> is_group a) (recipient opts))
                (filter (\<lambda>a. \<not> is_group a) (em_to m)) \<and>
         (\<not> validate_email e ''ADMINS'' \<and> \<not> validate_email e ''MANAGERS'' \<longrightarrow>
            prefix (filter (\<lambda>a. \<not> is_group a) (recipient opts)) (em_to m))"
    using to_ok plain [of "p_recipient_list p"] by (auto simp: m email_of_def)
  have copy_part: "(w = None \<longleftrightarrow> v = None) \<and>
         (\<forall>s. v = Some s \<longrightarrow>
            (\<exists>l. w = Some l \<and> (\<forall>a \<in> set l. validate_email e a) \<and>
               prefix (filter (\<lambda>a. \<not> is_group a) (if s = [] then [] else map strip (split_comma s)))
                      (filter (\<lambda>a. \<not> is_group a) l) \<and>
               (\<not> validate_email e ''ADMINS'' \<and> \<not> validate_email e ''MANAGERS'' \<longrightarrow>
                  prefix (filter (\<lambda>a. \<not> is_group a)
                            (if s = [] then [] else map strip (split_comma s))) l)))"
    if pc: "process_copy e (split_copy v) = Some (Inr w)" for v w
  proof (cases v)
    case None
    with process_copy_Inr [OF pc] show ?thesis by (simp add: split_copy_def)
  next
    case (Some s)
    then have sc: "split_copy v = Some (if s = [] then [] else map strip (split_comma s))"
      by (simp add: split_copy_def)
    from process_copy_Inr [OF pc] sc obtain l where
      l: "w = Some l" "\<forall>a \<in> set l. validate_email e a"
        "prefix (filter (\<lambda>a. \<not> is_group a) (if s = [] then [] else map strip (split_comma s)))
                (filter (\<lambda>a. \<not> is_group a) l)"
      by auto
    from l(3) plain [OF l(2)] have
      "\<not> validate_email e ''ADMINS'' \<and> \<not> validate_email e ''MANAGERS'' \<longrightarrow>
         prefix (filter (\<lambda>a. \<not> is_group a) (if s = [] then [] else map strip (split_comma s))) l"
      by auto
    with l Some show ?thesis by simp
  qed
  from copy_part [OF b] copy_part [OF c] to_part show ?thesis
    by (simp add: m email_of_def)
qed

theorem sent_addresses_valid_and_kept_witness:
  "Send \<lparr>em_subject = ''[Django] Hello'', em_body = ''Hi there'',
         em_from_email = ''webmaster@localhost'',
         em_to = [''a@x.com'', ''a@x.com'', ''root@x.com'', ''ops@x.com''],
         em_bcc = Some [''b@x.com'', ''b@x.com'', ''boss@x.com''],
         em_cc = Some [''c@x.com'', ''c@x.com'']\<rparr> False
     \<in> set [Send \<lparr>em_subject = ''[Django] Hello'', em_body = ''Hi there'',
         em_from_email = ''webmaster@localhost'',
         em_to = [''a@x.com'', ''a@x.com'', ''root@x.com'', ''ops@x.com''],
         em_bcc = Some [''b@x.com'', ''b@x.com'', ''boss@x.com''],
         em_cc = Some [''c@x.com'', ''c@x.com'']\<rparr> False] \<and>
   prefix (filter (\<lambda>a. \<not> is_group a) [''a@x.com'', ''ADMINS'', ''a@x.com''])
     [''a@x.com'', ''a@x.com'', ''root@x.com'', ''ops@x.com''] \<and>
   prefix (filter (\<lambda>a. \<not> is_group a) (map strip (split_comma ''b@x.com, b@x.com ,MANAGERS'')))
     [''b@x.com'', ''b@x.com'', ''boss@x.com''] \<and>
   prefix (filter (\<lambda>a. \<not> is_group a) (map strip (split_comma ''c@x.com, c@x.com'')))
     [''c@x.com'', ''c@x.com'']"
proof -
  have v: "\<not> validate_email example_env ''ADMINS'' \<and> \<not> validate_email example_env ''MANAGERS''"
    by (simp add: example_env_def)
  have o: "recipient (add_arguments (example_cli\<lparr>arg_recipient := [''a@x.com'', ''ADMINS'', ''a@x.com''],
        flag_bcc := Some ''b@x.com, b@x.com ,MANAGERS'', flag_cc := Some ''c@x.com, c@x.com'',
        flag_noinput := True\<rparr>)) = [''a@x.com'', ''ADMINS'', ''a@x.com'']"
    "bcc (add_arguments (example_cli\<lparr>arg_recipient := [''a@x.com'', ''ADMINS'', ''a@x.com''],
        flag_bcc := Some ''b@x.com, b@x.com ,MANAGERS'', flag_cc := Some ''c@x.com, c@x.com'',
        flag_noinput := True\<rparr>)) = Some ''b@x.com, b@x.com ,MANAGERS''"
    "cc (add_arguments (example_cli\<lparr>arg_recipient := [''a@x.com'', ''ADMINS'', ''a@x.com''],
        flag_bcc := Some ''b@x.com, b@x.com ,MANAGERS'', flag_cc := Some ''c@x.com, c@x.com'',
        flag_noinput := True\<rparr>)) = Some ''c@x.com, c@x.com''"
    by (simp_all add: add_arguments_def)
  have mem: "Send \<lparr>em_subject = ''[Django] Hello'', em_body = ''Hi there'',
         em_from_email = ''webmaster@localhost'',
         em_to = [''a@x.com'', ''a@x.com'', ''root@x.com'', ''ops@x.com''],
         em_bcc = Some [''b@x.com'', ''b@x.com'', ''boss@x.com''],
         em_cc = Some [''c@x.com'', ''c@x.com'']\<rparr> False
     \<in> set [Send \<lparr>em_subject = ''[Django] Hello'', em_body = ''Hi there'',
         em_from_email = ''webmaster@localhost'',
         em_to = [''a@x.com'', ''a@x.com'', ''root@x.com'', ''ops@x.com''],
         em_bcc = Some [''b@x.com'', ''b@x.com'', ''boss@x.com''],
         em_cc = Some [''c@x.com'', ''c@x.com'']\<rparr> False]"
    by simp
  from sent_addresses_valid_and_kept [OF example_send_run mem] v
  show ?thesis
    unfolding o by (simp del: split_comma.simps filter.simps map_eq_conv list.map)
qed

subsection \<open>The standard input marker\<close>

text \<open>
  Claim C5, as stated, fails: with a regular file named \<^verbatim>\<open>-\<close> in the working directory the
  message argument \<^verbatim>\<open>-\<close> is read from that file, standard input is not read and
  \<^verbatim>\<open>interactive\<close> keeps its value.
\<close>

theorem stdin_marker_shadowed_by_file:
  "stdin_read dash_file_env = Got ''text on stdin'' \<and>
   read_message dash_file_env ''-'' True = ([ReadFile ''-''], Inr (''text of the file'', True))"
  by (simp add: dash_file_env_def example_env_def read_message_def)

text \<open>
  Claim C5, amended. When the message argument is \<^verbatim>\<open>-\<close> and no regular file of that name
  exists, the command reads standard input first and, whatever \<^verbatim>\<open>--no-input\<close> was, never
  prompts; when the read completes, the body is the whole of standard input and
  \<^verbatim>\<open>interactive\<close> is false.
\<close>

theorem stdin_marker_reads_stdin_and_disables_prompt:
  assumes "\<not> isfile e ''-''" and "message opts = ''-''"
  shows "read_message e (message opts) (interactive opts) =
           ([ReadStdin],
            case stdin_read e of Got text \<Rightarrow> Inr (text, False) | Interrupted \<Rightarrow> Inl KeyboardInterrupt) \<and>
         (\<forall>t0 p. prepare e opts = Some (t0, Inr p) \<longrightarrow>
            stdin_read e = Got (p_message p) \<and> \<not> p_interactive p) \<and>
         (\<forall>t r. handle e opts = Some (t, r) \<longrightarrow>
            (\<exists>t1. t = ReadStdin # t1 \<and> (\<forall>q. Prompt q \<notin> set t1)) \<and>
            (\<forall>m fs. Send m fs \<in> set t \<longrightarrow> stdin_read e = Got (em_body m)))"
proof -
  have rm: "read_message e (message opts) (interactive opts) =
           ([ReadStdin],
            case stdin_read e of Got text \<Rightarrow> Inr (text, False) | Interrupted \<Rightarrow> Inl KeyboardInterrupt)"
    using assms by (simp add: read_message_def split: blocking.splits)
  have prep: "stdin_read e = Got (p_message p) \<and> \<not> p_interactive p"
    if "prepare e opts = Some (t0, Inr p)" for t0 p
    using prepare_Inr [OF that] rm by (auto split: blocking.splits)
  have run: "(\<exists>t1. t = ReadStdin # t1 \<and> (\<forall>q. Prompt q \<notin> set t1)) \<and>
             (\<forall>m fs. Send m fs \<in> set t \<longrightarrow> stdin_read e = Got (em_body m))"
    if h: "handle e opts = Some (t, r)" for t r
  proof -
    from handle_trace_cases [OF h] obtain t0 r0 t1 where
      p: "prepare e opts = Some (t0, r0)" and t: "t = t0 @ t1" and
      np: "\<forall>q. Prompt q \<in> set t1 \<longrightarrow> (\<exists>p. r0 = Inr p \<and> p_interactive p)"
      by auto
    from prepare_trace [OF p] assms have t0: "t0 = [ReadStdin]" by simp
    have "\<forall>q. Prompt q \<notin> set t1"
    proof (intro allI notI)
      fix q assume "Prompt q \<in> set t1"
      with np obtain p' where "r0 = Inr p'" "p_interactive p'" by blast
      with p prep [of t0 p'] show False by simp
    qed
    with t t0 have first: "\<exists>t1. t = ReadStdin # t1 \<and> (\<forall>q. Prompt q \<notin> set t1)" by simp
    have "stdin_read e = Got (em_body m)" if s: "Send m fs \<in> set t" for m fs
    proof -
      from handle_sent [OF h s] obtain t0' p' where
        "prepare e opts = Some (t0', Inr p')" "m = email_of p'" by blast
      with prep [of t0' p'] show ?thesis by (simp add: email_of_def)
    qed
    with first show ?thesis by blast
  qed
  from rm prep run show ?thesis by blast
qed

theorem stdin_marker_reads_stdin_and_disables_prompt_witness:
  "handle example_env (add_arguments (example_cli\<lparr>arg_message := ''-''\<rparr>)) =
     Some ([ReadStdin,
            Send \<lparr>em_subject = ''[Django] Hello'', em_body = ''text on stdin'',
                  em_from_email = ''webmaster@localhost'', em_to = [''a@x.com''],
                  em_bcc = None, em_cc = None\<rparr> False], Inr ()) \<and>
   stdin_read example_env = Got ''text on stdin''"
proof -
  have run: "handle example_env (add_arguments (example_cli\<lparr>arg_message := ''-''\<rparr>)) =
     Some ([ReadStdin,
            Send \<lparr>em_subject = ''[Django] Hello'', em_body = ''text on stdin'',
                  em_from_email = ''webmaster@localhost'', em_to = [''a@x.com''],
                  em_bcc = None, em_cc = None\<rparr> False], Inr ())"
    by (simp add: run_defs validate_addresses_ok)
  have nofile: "\<not> isfile example_env ''-''" by (simp add: example_env_def)
  have dash: "message (add_arguments (example_cli\<lparr>arg_message := ''-''\<rparr>)) = ''-''"
    by (simp add: add_arguments_def)
  from stdin_marker_reads_stdin_and_disables_prompt [OF nofile dash] run
  have "stdin_read example_env = Got ''text on stdin''"
    by auto
  with run show ?thesis by simp
qed

subsection \<open>Sender and subject\<close>

text \<open>
  Claim C6. After the defaults are applied, and in every message handed to the mail library,
  the sender is the value of \<^verbatim>\<open>-f/--from\<close> when the flag was given and
  \<^verbatim>\<open>settings.DEFAULT_FROM_EMAIL\<close> otherwise; the subject is the given subject with
  \<^verbatim>\<open>settings.EMAIL_SUBJECT_PREFIX\<close> directly in front of it, or the given subject alone when
  \<^verbatim>\<open>-n/--noprefix\<close> was given.
\<close>

theorem sender_and_subject_defaults:
  "(\<forall>t0 p. prepare e (add_arguments a) = Some (t0, Inr p) \<longrightarrow>
      p_from_email p = (case flag_from a of Some f \<Rightarrow> f | None \<Rightarrow> DEFAULT_FROM_EMAIL (conf e)) \<and>
      p_subject p = (if flag_noprefix a then arg_subject a
                     else EMAIL_SUBJECT_PREFIX (conf e) @ arg_subject a)) \<and>
   (\<forall>t r m fs. handle e (add_arguments a) = Some (t, r) \<and> Send m fs \<in> set t \<longrightarrow>
      em_from_email m = (case flag_from a of Some f \<Rightarrow> f | None \<Rightarrow> DEFAULT_FROM_EMAIL (conf e)) \<and>
      em_subject m = (if flag_noprefix a then arg_subject a
                      else EMAIL_SUBJECT_PREFIX (conf e) @ arg_subject a))"
proof -
  have prep: "p_from_email p = (case flag_from a of Some f \<Rightarrow> f | None \<Rightarrow> DEFAULT_FROM_EMAIL (conf e)) \<and>
      p_subject p = (if flag_noprefix a then arg_subject a
                     else EMAIL_SUBJECT_PREFIX (conf e) @ arg_subject a)"
    if "prepare e (add_arguments a) = Some (t0, Inr p)" for t0 p
    using prepare_Inr [OF that]
    by (auto simp: default_from_def prefixed_subject_def add_arguments_def split: option.splits)
  have "em_from_email m = (case flag_from a of Some f \<Rightarrow> f | None \<Rightarrow> DEFAULT_FROM_EMAIL (conf e)) \<and>
      em_subject m = (if flag_noprefix a then arg_subject a
                      else EMAIL_SUBJECT_PREFIX (conf e) @ arg_subject a)"
    if h: "handle e (add_arguments a) = Some (t, r)" and s: "Send m fs \<in> set t" for t r m fs
  proof -
    from handle_sent [OF h s] obtain t0 p where
      p: "prepare e (add_arguments a) = Some (t0, Inr p)" and m: "m = email_of p" by blast
    from prep [OF p] m show ?thesis by (simp add: email_of_def)
  qed
  with prep show ?thesis by blast
qed

theorem sender_and_subject_defaults_witness:
  "em_from_email \<lparr>em_subject = ''Hello'', em_body = ''Hi there'',
                em_from_email = ''me@x.com'', em_to = [''a@x.com''],
                em_bcc = None, em_cc = None\<rparr> = ''me@x.com'' \<and>
   handle example_env
     (add_arguments (example_cli\<lparr>flag_from := Some ''me@x.com'', flag_noprefix := True,
        flag_noinput := True\<rparr>)) =
   Some ([Send \<lparr>em_subject = ''Hello'', em_body = ''Hi there'',
                em_from_email = ''me@x.com'', em_to = [''a@x.com''],
                em_bcc = None, em_cc = None\<rparr> False], Inr ())"
  using sender_and_subject_defaults [of example_env
      "example_cli\<lparr>flag_from := Some ''me@x.com'', flag_noprefix := True, flag_noinput := True\<rparr>"]
    example_from_run
  by simp

subsection \<open>The preview\<close>

text \<open>
  Claim C7, as stated, fails: the text written is not the layout alone, it starts with a
  newline character, so an empty line comes before the opening banner.
\<close>

theorem preview_starts_with_empty_line:
  "fst (show_preview (add_arguments example_cli)
          \<lparr>p_subject = ''[Django] Hello'', p_message = ''Hi there'',
           p_from_email = ''webmaster@localhost'', p_recipient_list = [''a@x.com''],
           p_bcc = None, p_cc = None, p_interactive = True\<rparr>) \<noteq>
   [StdoutWrite (preview_layout ''[Django] Hello'' ''webmaster@localhost'' [''a@x.com''] []
      ''Hi there'')]"
  by (simp add: show_preview_eq newline_def preview_layout_def)

text \<open>
  Claim C7, amended. The preview is one newline character followed by exactly the layout of
  the specification's section 6 (opening banner, \<open>Subject\<close>, \<open>From\<close>, \<open>To\<close> and \<open>Cc\<close> lines
  with the lists joined by comma and space, an empty line, the body, the closing banner line)
  and nothing after the closing banner line; it is written when the verbosity is above 1 or
  the run is interactive, and in an interactive run directly before the prompt.
\<close>

theorem preview_is_empty_line_then_layout:
  "format CONFIRM_MESSAGE (format_kwargs p) =
     Inr ([CHR 0x0A] @ preview_layout (p_subject p) (p_from_email p) (p_recipient_list p)
            (case p_cc p of None \<Rightarrow> [] | Some l \<Rightarrow> l) (p_message p)) \<and>
   show_preview opts p =
     (if verbosity opts > 1 \<or> p_interactive p
      then ([StdoutWrite ([CHR 0x0A] @ preview_layout (p_subject p) (p_from_email p)
               (p_recipient_list p) (case p_cc p of None \<Rightarrow> [] | Some l \<Rightarrow> l) (p_message p))],
            Inr ())
      else ([], Inr ())) \<and>
   (prepare e opts = Some (t0, Inr p) \<and> p_interactive p \<longrightarrow>
      (\<exists>t1 r. handle e opts =
         Some (t0 @
               StdoutWrite ([CHR 0x0A] @ preview_layout (p_subject p) (p_from_email p)
                 (p_recipient_list p) (case p_cc p of None \<Rightarrow> [] | Some l \<Rightarrow> l) (p_message p)) #
               Prompt ''Send email message? [Y/n] '' # t1, r)))"
proof -
  have "\<exists>t1 r. handle e opts =
         Some (t0 @
               StdoutWrite ([CHR 0x0A] @ preview_layout (p_subject p) (p_from_email p)
                 (p_recipient_list p) (case p_cc p of None \<Rightarrow> [] | Some l \<Rightarrow> l) (p_message p)) #
               Prompt ''Send email message? [Y/n] '' # t1, r)"
    if p: "prepare e opts = Some (t0, Inr p)" and i: "p_interactive p"
    by (cases "raw_input e")
      (simp_all add: handle_interactive [OF p i] expected_preview_def newline_def)
  with format_CONFIRM_MESSAGE [of p] show_preview_eq [of opts p] show ?thesis
    by (simp add: newline_def)
qed

theorem preview_is_empty_line_then_layout_witness:
  "\<exists>t1 r. handle example_env (add_arguments example_cli) =
     Some ([] @
           StdoutWrite ([CHR 0x0A] @ preview_layout ''[Django] Hello'' ''webmaster@localhost''
             [''a@x.com''] [] ''Hi there'') #
           Prompt ''Send email message? [Y/n] '' # t1, r)"
  using preview_is_empty_line_then_layout [of
      "\<lparr>p_subject = ''[Django] Hello'', p_message = ''Hi there'',
        p_from_email = ''webmaster@localhost'', p_recipient_list = [''a@x.com''],
        p_bcc = None, p_cc = None, p_interactive = True\<rparr>"
      "add_arguments example_cli" example_env "[]"]
    example_prepare
  by simp

subsection \<open>Cancelling\<close>

text \<open>
  Claim C8, as stated, fails: the handler for \<^verbatim>\<open>KeyboardInterrupt\<close> encloses the whole of
  \<^verbatim>\<open>handle_send_mail\<close>, the call of the mail library included. An interrupt that arrives
  during that call ends the run with \<^verbatim>\<open>Operation cancelled.\<close> and exit code 1 after the
  message was handed to the mail library.
\<close>

theorem interrupt_during_send_cancels_after_sending:
  "handle (example_env\<lparr>deliver := (\<lambda>m. SendInterrupted)\<rparr>)
       (add_arguments (example_cli\<lparr>flag_noinput := True\<rparr>)) =
     Some ([Send \<lparr>em_subject = ''[Django] Hello'', em_body = ''Hi there'',
                  em_from_email = ''webmaster@localhost'', em_to = [''a@x.com''],
                  em_bcc = None, em_cc = None\<rparr> False,
            StderrWrite (''Operation cancelled.'' @ [CHR 0x0A])], Inl (SystemExit 1))"
  by (simp add: run_defs validate_addresses_ok newline_def)

text \<open>
  Claim C8, amended. When the operator answers the prompt with a refusal or interrupts it,
  and when the read of standard input is interrupted, the command writes
  \<^verbatim>\<open>Operation cancelled.\<close> to the error stream as its last action, ends with \<^verbatim>\<open>sys.exit(1)\<close>,
  and has handed nothing to the mail library. When the interrupt arrives during the call
  of the mail library, the run ends in the same way, with that one call made before the
  cancellation is written. No run ends with the interrupt itself.
\<close>

theorem cancel_exits_without_sending:
  "(prepare e opts = Some (t0, Inr p) \<and> p_interactive p \<and>
      (raw_input e = Interrupt \<or> (\<exists>s. raw_input e = Line s \<and> startswith (lower s) ''n'')) \<longrightarrow>
      (\<exists>t. handle e opts =
              Some (t @ [StderrWrite (''Operation cancelled.'' @ [CHR 0x0A])], Inl (SystemExit 1)) \<and>
           sent t = [])) \<and>
   (\<not> isfile e ''-'' \<and> message opts = ''-'' \<and> stdin_read e = Interrupted \<longrightarrow>
      handle e opts =
        Some ([ReadStdin, StderrWrite (''Operation cancelled.'' @ [CHR 0x0A])], Inl (SystemExit 1))) \<and>
   (prepare e opts = Some (t0, Inr p) \<and> deliver e (email_of p) = SendInterrupted \<and>
      (\<not> p_interactive p \<or> (\<exists>s. raw_input e = Line s \<and> \<not> startswith (lower s) ''n'')) \<longrightarrow>
      (\<exists>t. handle e opts =
              Some (t @ [Send (email_of p) (fail_silently opts),
                         StderrWrite (''Operation cancelled.'' @ [CHR 0x0A])],
                    Inl (SystemExit 1)) \<and>
           sent t = [])) \<and>
   (\<forall>t r. handle e opts = Some (t, r) \<longrightarrow> r \<noteq> Inl KeyboardInterrupt)"
proof (intro conjI impI allI)
  assume a: "prepare e opts = Some (t0, Inr p) \<and> p_interactive p \<and>
      (raw_input e = Interrupt \<or> (\<exists>s. raw_input e = Line s \<and> startswith (lower s) ''n''))"
  then have p: "prepare e opts = Some (t0, Inr p)" and i: "p_interactive p" by simp_all
  from a have "handle e opts =
      Some ((t0 @ [StdoutWrite (expected_preview p), Prompt ''Send email message? [Y/n] '']) @
              [StderrWrite (''Operation cancelled.'' @ [CHR 0x0A])], Inl (SystemExit 1))"
    by (auto simp: handle_interactive [OF p i] cancelled_def newline_def)
  moreover have "sent (t0 @ [StdoutWrite (expected_preview p), Prompt ''Send email message? [Y/n] '']) = []"
    by (simp add: sent_append sent_prepare [OF p])
  ultimately show "\<exists>t. handle e opts =
              Some (t @ [StderrWrite (''Operation cancelled.'' @ [CHR 0x0A])], Inl (SystemExit 1)) \<and>
           sent t = []"
    by blast
next
  assume "\<not> isfile e ''-'' \<and> message opts = ''-'' \<and> stdin_read e = Interrupted"
  then show "handle e opts =
        Some ([ReadStdin, StderrWrite (''Operation cancelled.'' @ [CHR 0x0A])], Inl (SystemExit 1))"
    by (simp add: handle_def handle_send_mail_def prepare_def read_message_def bind_io_def
        cancelled_def newline_def)
next
  assume a: "prepare e opts = Some (t0, Inr p) \<and> deliver e (email_of p) = SendInterrupted \<and>
      (\<not> p_interactive p \<or> (\<exists>s. raw_input e = Line s \<and> \<not> startswith (lower s) ''n''))"
  then have p: "prepare e opts = Some (t0, Inr p)"
    and d: "deliver e (email_of p) = SendInterrupted" by simp_all
  have end_of_run: "after_send e opts p =
      ([Send (email_of p) (fail_silently opts),
        StderrWrite (''Operation cancelled.'' @ [CHR 0x0A])], Inl (SystemExit 1))"
    using d by (simp add: after_send_def cancelled_def newline_def)
  show "\<exists>t. handle e opts =
              Some (t @ [Send (email_of p) (fail_silently opts),
                         StderrWrite (''Operation cancelled.'' @ [CHR 0x0A])],
                    Inl (SystemExit 1)) \<and>
           sent t = []"
  proof (cases "p_interactive p")
    case True
    with a obtain s where s: "raw_input e = Line s" "\<not> startswith (lower s) ''n''" by blast
    have "handle e opts =
        Some ((t0 @ [StdoutWrite (expected_preview p), Prompt ''Send email message? [Y/n] '']) @
                [Send (email_of p) (fail_silently opts),
                 StderrWrite (''Operation cancelled.'' @ [CHR 0x0A])], Inl (SystemExit 1))"
      using s by (simp add: handle_interactive [OF p True] end_of_run)
    moreover have
      "sent (t0 @ [StdoutWrite (expected_preview p), Prompt ''Send email message? [Y/n] '']) = []"
      by (simp add: sent_append sent_prepare [OF p])
    ultimately show ?thesis by blast
  next
    case False
    have "handle e opts =
        Some ((t0 @ (if verbosity opts > 1 then [StdoutWrite (expected_preview p)] else [])) @
                [Send (email_of p) (fail_silently opts),
                 StderrWrite (''Operation cancelled.'' @ [CHR 0x0A])], Inl (SystemExit 1))"
      by (simp add: handle_not_interactive [OF p False] end_of_run)
    moreover have
      "sent (t0 @ (if verbosity opts > 1 then [StdoutWrite (expected_preview p)] else [])) = []"
      by (simp add: sent_append sent_prepare [OF p])
    ultimately show ?thesis by blast
  qed
next
  fix t r
  assume "handle e opts = Some (t, r)"
  then show "r \<noteq> Inl KeyboardInterrupt"
    by (auto simp: handle_def split: option.splits if_splits)
qed

theorem cancel_exits_without_sending_witness:
  "(\<exists>t. handle (example_env\<lparr>raw_input := Line ''No thanks''\<rparr>) (add_arguments example_cli) =
          Some (t @ [StderrWrite (''Operation cancelled.'' @ [CHR 0x0A])], Inl (SystemExit 1)) \<and>
        sent t = []) \<and>
   handle (example_env\<lparr>stdin_read := Interrupted\<rparr>) (add_arguments (example_cli\<lparr>arg_message := ''-''\<rparr>)) =
     Some ([ReadStdin, StderrWrite (''Operation cancelled.'' @ [CHR 0x0A])], Inl (SystemExit 1)) \<and>
   (\<exists>t. handle (example_env\<lparr>raw_input := Line ''yes'', deliver := (\<lambda>m. SendInterrupted)\<rparr>)
           (add_arguments example_cli) =
          Some (t @ [Send \<lparr>em_subject = ''[Django] Hello'', em_body = ''Hi there'',
                            em_from_email = ''webmaster@localhost'', em_to = [''a@x.com''],
                            em_bcc = None, em_cc = None\<rparr> False,
                     StderrWrite (''Operation cancelled.'' @ [CHR 0x0A])], Inl (SystemExit 1)) \<and>
        sent t = [])"
proof -
  have low: "startswith (lower ''No thanks'') ''n''"
    by (simp add: startswith_lower_n)
  have one: "\<exists>t. handle (example_env\<lparr>raw_input := Line ''No thanks''\<rparr>) (add_arguments example_cli) =
          Some (t @ [StderrWrite (''Operation cancelled.'' @ [CHR 0x0A])], Inl (SystemExit 1)) \<and>
        sent t = []"
    using cancel_exits_without_sending
      [of "example_env\<lparr>raw_input := Line ''No thanks''\<rparr>" "add_arguments example_cli" "[]"
        "\<lparr>p_subject = ''[Django] Hello'', p_message = ''Hi there'',
                    p_from_email = ''webmaster@localhost'', p_recipient_list = [''a@x.com''],
                    p_bcc = None, p_cc = None, p_interactive = True\<rparr>"]
      example_prepare_reply [of "Line ''No thanks''"] low
    by simp
  have two: "handle (example_env\<lparr>stdin_read := Interrupted\<rparr>) (add_arguments (example_cli\<lparr>arg_message := ''-''\<rparr>)) =
     Some ([ReadStdin, StderrWrite (''Operation cancelled.'' @ [CHR 0x0A])], Inl (SystemExit 1))"
    using cancel_exits_without_sending
      [of "example_env\<lparr>stdin_read := Interrupted\<rparr>" "add_arguments (example_cli\<lparr>arg_message := ''-''\<rparr>)"]
    by (simp add: example_env_def add_arguments_def)
  have yes: "\<not> startswith (lower ''yes'') ''n''"
    by (simp add: startswith_lower_n)
  have prep: "prepare (example_env\<lparr>raw_input := Line ''yes'', deliver := (\<lambda>m. SendInterrupted)\<rparr>)
       (add_arguments example_cli) =
     Some ([], Inr \<lparr>p_subject = ''[Django] Hello'', p_message = ''Hi there'',
                    p_from_email = ''webmaster@localhost'', p_recipient_list = [''a@x.com''],
                    p_bcc = None, p_cc = None, p_interactive = True\<rparr>)"
    by (simp add: run_defs validate_addresses_ok)
  have three: "\<exists>t. handle (example_env\<lparr>raw_input := Line ''yes'', deliver := (\<lambda>m. SendInterrupted)\<rparr>)
           (add_arguments example_cli) =
          Some (t @ [Send \<lparr>em_subject = ''[Django] Hello'', em_body = ''Hi there'',
                            em_from_email = ''webmaster@localhost'', em_to = [''a@x.com''],
                            em_bcc = None, em_cc = None\<rparr> False,
                     StderrWrite (''Operation cancelled.'' @ [CHR 0x0A])], Inl (SystemExit 1)) \<and>
        sent t = []"
    using cancel_exits_without_sending
      [of "example_env\<lparr>raw_input := Line ''yes'', deliver := (\<lambda>m. SendInterrupted)\<rparr>"
        "add_arguments example_cli" "[]"
        "\<lparr>p_subject = ''[Django] Hello'', p_message = ''Hi there'',
                    p_from_email = ''webmaster@localhost'', p_recipient_list = [''a@x.com''],
                    p_bcc = None, p_cc = None, p_interactive = True\<rparr>"]
      prep yes
    by (simp add: email_of_def add_arguments_def example_cli_def)
  from one two three show ?thesis by blast
qed

subsection \<open>A file named like the marker\<close>

text \<open>
  Claim C9. The file test comes first: when a regular file named \<^verbatim>\<open>-\<close> exists, the message
  argument \<^verbatim>\<open>-\<close> is opened as that file (its text becomes the body, or the read error is
  reported), standard input is not read at any point of the run, and \<^verbatim>\<open>interactive\<close> keeps
  the value the command line gave it.
\<close>

theorem file_named_dash_takes_precedence:
  assumes "isfile e ''-''" and "message opts = ''-''"
  shows "read_message e (message opts) (interactive opts) =
           ([ReadFile ''-''],
            case open_read e ''-'' of
              Inr text \<Rightarrow> Inr (text, interactive opts)
            | Inl exc \<Rightarrow>
                Inl (CommandError (''Error reading message file '' @ [CHR 0x22] @ ''-'' @
                       [CHR 0x22] @ '': '' @ exc))) \<and>
         (\<forall>t0 p. prepare e opts = Some (t0, Inr p) \<longrightarrow>
            open_read e ''-'' = Inr (p_message p) \<and> p_interactive p = interactive opts) \<and>
         (\<forall>t r. handle e opts = Some (t, r) \<longrightarrow>
            ReadStdin \<notin> set t \<and>
            (\<forall>m fs. Send m fs \<in> set t \<longrightarrow> open_read e ''-'' = Inr (em_body m)))"
proof -
  have rm: "read_message e (message opts) (interactive opts) =
           ([ReadFile ''-''],
            case open_read e ''-'' of
              Inr text \<Rightarrow> Inr (text, interactive opts)
            | Inl exc \<Rightarrow>
                Inl (CommandError (''Error reading message file '' @ [CHR 0x22] @ ''-'' @
                       [CHR 0x22] @ '': '' @ exc)))"
    using assms by (simp add: read_message_def dquote_def split: sum.splits)
  have prep: "open_read e ''-'' = Inr (p_message p) \<and> p_interactive p = interactive opts"
    if "prepare e opts = Some (t0, Inr p)" for t0 p
    using prepare_Inr [OF that] rm by (auto split: sum.splits)
  have run: "ReadStdin \<notin> set t \<and>
             (\<forall>m fs. Send m fs \<in> set t \<longrightarrow> open_read e ''-'' = Inr (em_body m))"
    if h: "handle e opts = Some (t, r)" for t r
  proof -
    from handle_trace_cases [OF h] obtain t0 r0 t1 where
      p: "prepare e opts = Some (t0, r0)" and t: "t = t0 @ t1" and n: "ReadStdin \<notin> set t1"
      by auto
    from prepare_trace [OF p] assms have "t0 = [ReadFile ''-'']" by simp
    with t n have first: "ReadStdin \<notin> set t" by simp
    have "open_read e ''-'' = Inr (em_body m)" if s: "Send m fs \<in> set t" for m fs
    proof -
      from handle_sent [OF h s] obtain t0' p' where
        "prepare e opts = Some (t0', Inr p')" "m = email_of p'" by blast
      with prep [of t0' p'] show ?thesis by (simp add: email_of_def)
    qed
    with first show ?thesis by blast
  qed
  from rm prep run show ?thesis by blast
qed

lemma dash_file_prepare:
  "prepare dash_file_env (add_arguments (example_cli\<lparr>arg_message := ''-''\<rparr>)) =
     Some ([ReadFile ''-''],
           Inr \<lparr>p_subject = ''[Django] Hello'', p_message = ''text of the file'',
                p_from_email = ''webmaster@localhost'', p_recipient_list = [''a@x.com''],
                p_bcc = None, p_cc = None, p_interactive = True\<rparr>)"
  by (simp add: run_defs dash_file_env_def validate_addresses_ok)

theorem file_named_dash_takes_precedence_witness:
  "open_read dash_file_env ''-'' = Inr ''text of the file'' \<and>
   interactive (add_arguments (example_cli\<lparr>arg_message := ''-''\<rparr>)) \<and>
   prepare dash_file_env (add_arguments (example_cli\<lparr>arg_message := ''-''\<rparr>)) =
     Some ([ReadFile ''-''],
           Inr \<lparr>p_subject = ''[Django] Hello'', p_message = ''text of the file'',
                p_from_email = ''webmaster@localhost'', p_recipient_list = [''a@x.com''],
                p_bcc = None, p_cc = None, p_interactive = True\<rparr>)"
proof -
  have f: "isfile dash_file_env ''-''" by (simp add: dash_file_env_def)
  have d: "message (add_arguments (example_cli\<lparr>arg_message := ''-''\<rparr>)) = ''-''"
    by (simp add: add_arguments_def)
  from file_named_dash_takes_precedence [OF f d] dash_file_prepare show ?thesis
    by auto
qed

subsection \<open>The answer to the prompt\<close>

text \<open>
  Claim C10. The prompt defaults to yes: an answer cancels exactly when its lower-cased text
  starts with \<^verbatim>\<open>n\<close>, that is when its first character is \<^verbatim>\<open>n\<close> or \<^verbatim>\<open>N\<close>; every other
  answer, the empty one included, lets the command hand the message to the mail library.
\<close>

theorem confirmation_defaults_to_yes:
  assumes "prepare e opts = Some (t0, Inr p)" and "p_interactive p" and "raw_input e = Line s"
  shows "(startswith (lower s) ''n'' \<longleftrightarrow> (\<exists>rest. s = CHR ''n'' # rest \<or> s = CHR ''N'' # rest)) \<and>
         (\<exists>t r. handle e opts = Some (t, r) \<and>
            sent t = (if startswith (lower s) ''n'' then [] else [email_of p]))"
proof -
  have "\<exists>t r. handle e opts = Some (t, r) \<and>
            sent t = (if startswith (lower s) ''n'' then [] else [email_of p])"
    using assms(3)
    by (simp add: handle_interactive [OF assms(1,2)] sent_append sent_prepare [OF assms(1)]
        sent_after_send)
  then show ?thesis by (simp add: startswith_lower_n)
qed

theorem confirmation_defaults_to_yes_witness:
  "\<exists>t r. handle (example_env\<lparr>raw_input := Line []\<rparr>) (add_arguments example_cli) = Some (t, r) \<and>
     sent t = [\<lparr>em_subject = ''[Django] Hello'', em_body = ''Hi there'',
                em_from_email = ''webmaster@localhost'', em_to = [''a@x.com''],
                em_bcc = None, em_cc = None\<rparr>]"
proof -
  have r: "raw_input (example_env\<lparr>raw_input := Line []\<rparr>) = Line []" by simp
  have i: "p_interactive \<lparr>p_subject = ''[Django] Hello'', p_message = ''Hi there'',
                    p_from_email = ''webmaster@localhost'', p_recipient_list = [''a@x.com''],
                    p_bcc = None, p_cc = None, p_interactive = True\<rparr>" by simp
  from confirmation_defaults_to_yes [OF example_prepare_reply i r]
  show ?thesis by (simp add: startswith_def lower_def email_of_def)
qed

end
